theory Spec2Isabelle
  imports Main "HOL-Library.Word"
begin

section \<open>Values shared with the resolver engine and the operating system\<close>

text \<open>
  A \<^verbatim>\<open>boost::system::error_code\<close> is modelled by its integer value: 0 is the cleared
  code, \<^verbatim>\<open>!ec\<close> is \<open>ec = 0\<close>, \<^verbatim>\<open>ec.clear()\<close> stores 0 and \<^verbatim>\<open>ec.assign(v, _)\<close> stores
  \<open>v\<close>. The constants below come from \<^verbatim>\<open>ares.h\<close> and the socket headers; only the
  fact that they are distinct is ever used.
\<close>

type_synonym error_code = int
type_synonym ares_socket_t = int
type_synonym address = string

definition ARES_SUCCESS :: int where
  "ARES_SUCCESS = 0"

definition ARES_ECANCELLED :: int where
  "ARES_ECANCELLED = 24"

definition ARES_SOCKET_BAD :: ares_socket_t where
  "ARES_SOCKET_BAD = - 1"

definition AF_INET :: int where
  "AF_INET = 2"

definition AF_INET6 :: int where
  "AF_INET6 = 10"

definition SOCK_STREAM :: int where
  "SOCK_STREAM = 1"

definition SOCK_DGRAM :: int where
  "SOCK_DGRAM = 2"

text \<open>
  \<^verbatim>\<open>boost::asio::error::operation_aborted\<close>, the code with which a cancelled wait
  completes: a value of the reactor library, not 0.
\<close>

definition operation_aborted :: error_code where
  "operation_aborted = 125"

text \<open>
  Modelled from the spec: \<^verbatim>\<open>error.hxx\<close> is not among the sources. \<^verbatim>\<open>error::not_implemented\<close>
  is the "not supported" error that \<^verbatim>\<open>SetResolveMode\<close> reports; it is given the value of
  the engine's \<^verbatim>\<open>ARES_ENOTIMP\<close>. Only the fact that it is not 0 matters.
\<close>

definition not_implemented :: error_code where
  "not_implemented = 5"

text \<open>
  A \<^verbatim>\<open>struct hostent\<close> as far as the Channel reads it: the address family and the list of
  addresses. The engine hands over a null pointer together with every status other than
  \<^verbatim>\<open>ARES_SUCCESS\<close>; \<^verbatim>\<open>ResultHandler\<close> reads the entries only under \<^verbatim>\<open>!ec\<close>, so the
  null pointer is the record \<open>null_hostent\<close>, which is never read.
\<close>

record hostent =
  h_addrtype :: int
  h_addr_list :: "address list"

definition null_hostent :: hostent where
  "null_hostent = \<lparr>h_addrtype = 0, h_addr_list = []\<rparr>"

text \<open>
  Modelled from the spec: \<^verbatim>\<open>resolve_mode.hxx\<close> is not among the sources. The spec lists
  the six policies of the enumeration; a C++ enumeration object can also hold a value that is
  none of its enumerators, which is \<open>undefined_mode\<close>. \<^verbatim>\<open>is_valid_resolve_mode\<close> accepts
  exactly the six policies.
\<close>

datatype resolve_mode =
  unspecific | ipv4_only | ipv6_only | ipv4_first | ipv6_first | both | undefined_mode int

fun is_valid_resolve_mode :: "resolve_mode \<Rightarrow> bool" where
  "is_valid_resolve_mode (undefined_mode v) = False"
| "is_valid_resolve_mode m = True"

section \<open>The result sequence of a query\<close>

text \<open>
  Modelled from the spec: the class behind the template parameter \<^verbatim>\<open>Results\<close> is not among
  the sources. The spec describes it as an ordered sequence of resolved addresses, by
  family: \<^verbatim>\<open>Append\<close> puts the addresses of a host entry behind the sequence,
  \<^verbatim>\<open>Prepend\<close> in front of it, \<^verbatim>\<open>IsEmpty\<close> tests for the empty sequence, and
  \<^verbatim>\<open>LastFamily(family)\<close> returns false on the empty sequence and otherwise stores the
  family of the last entry and returns true (here: \<open>None\<close> and \<open>Some family\<close>).
\<close>

type_synonym results = "(int \<times> address) list"

definition entries_of :: "hostent \<Rightarrow> results" where
  "entries_of h = map (Pair (h_addrtype h)) (h_addr_list h)"

definition IsEmpty :: "results \<Rightarrow> bool" where
  "IsEmpty r = (r = [])"

definition Append :: "hostent \<Rightarrow> results \<Rightarrow> results" where
  "Append entries r = r @ entries_of entries"

definition Prepend :: "hostent \<Rightarrow> results \<Rightarrow> results" where
  "Prepend entries r = entries_of entries @ r"

definition LastFamily :: "results \<Rightarrow> int option" where
  "LastFamily r = (if r = [] then None else Some (fst (last r)))"

section \<open>The Channel\<close>

text \<open>
  A \<^verbatim>\<open>Channel::Socket\<close>: stream or datagram (\<^verbatim>\<open>is_tcp_\<close>), its native handle and the
  protocol version it was opened with.
\<close>

record socket =
  is_tcp :: bool
  native_handle :: ares_socket_t
  is_v4 :: bool

text \<open>
  The handlers that the Channel posts to \<^verbatim>\<open>strand_\<close>: the increment of
  \<^verbatim>\<open>AsyncGetHostByNameInternal\<close>, the decrement of \<^verbatim>\<open>HostCallback\<close> and the engine call
  of \<^verbatim>\<open>ProcessFd\<close>. The strand runs them one at a time in the order they were posted.
\<close>

datatype strand_task = IncrementTask | DecrementTask | ProcessFdTask ares_socket_t ares_socket_t

text \<open>
  The members of \<^verbatim>\<open>Channel\<close> (the trailing underscore of the C++ names is dropped).
  \<open>timer\<close> is true while a wait on \<^verbatim>\<open>timer_\<close> is outstanding, and \<open>timer_ready\<close>
  holds the waits on \<^verbatim>\<open>timer_\<close> that have ended and whose handler
  \<^verbatim>\<open>TimerCallback\<close> the reactor has queued but not yet run, each with the error code the
  handler will get, oldest first. \<open>strand\<close> is the queue
  of handlers posted to \<^verbatim>\<open>strand_\<close> and not yet run, and \<open>ares_channel\<close> is what the
  model keeps of the engine handle \<^verbatim>\<open>channel_\<close>: the sub-lookups that the engine has
  accepted and not yet completed, each with the address of the aggregate its bound
  \<^verbatim>\<open>ResultHandler\<close> works on and its family. \<^verbatim>\<open>request_count_\<close> is an \<^verbatim>\<open>int64_t\<close>; it
  moves by one per handler, so its bounds are out of reach and it is an \<open>int\<close> here.
\<close>

record channel =
  sockets :: "ares_socket_t \<rightharpoonup> socket"
  request_count :: int
  resolve_mode :: resolve_mode
  timer_period :: int
  timer :: bool
  timer_ready :: "error_code list"
  strand :: "strand_task list"
  ares_channel :: "(nat \<times> int) list"

text \<open>
  The constructor: \<open>init_ret\<close> is what \<^verbatim>\<open>ares_init_options\<close> returns; any value other
  than \<^verbatim>\<open>ARES_SUCCESS\<close> makes the constructor throw that error. The period is half the
  timeout, by the truncating division of C++.
\<close>

definition Channel :: "int \<Rightarrow> int \<Rightarrow> error_code + channel" where
  "Channel timeout init_ret =
     (if init_ret \<noteq> ARES_SUCCESS then Inl init_ret
      else Inr \<lparr>sockets = Map.empty, request_count = 0, resolve_mode = both,
                timer_period = sgn timeout * (\<bar>timeout\<bar> div 2), timer = False,
                timer_ready = [], strand = [], ares_channel = []\<rparr>)"

definition SetResolveMode :: "resolve_mode \<Rightarrow> channel \<Rightarrow> error_code \<times> channel" where
  "SetResolveMode mode ch =
     (if \<not> is_valid_resolve_mode mode then (not_implemented, ch)
      else (0, ch\<lparr>resolve_mode := mode\<rparr>))"

definition GetResolveMode :: "channel \<Rightarrow> resolve_mode" where
  "GetResolveMode ch = resolve_mode ch"

text \<open>
  The deadline timer of the reactor, as the Channel uses it. \<^verbatim>\<open>cancel\<close> ends an
  outstanding wait: its handler is queued with \<^verbatim>\<open>operation_aborted\<close>; a handler that
  is already queued is not touched and keeps its code. \<^verbatim>\<open>expires_from_now\<close> cancels an
  outstanding wait in the same way before it sets the new expiry time (time itself is not
  modelled), and \<^verbatim>\<open>async_wait\<close> starts a wait. The source calls \<^verbatim>\<open>async_wait\<close> only
  right after \<^verbatim>\<open>expires_from_now\<close>, so at most one wait is outstanding.
\<close>

definition timer_cancel :: "channel \<Rightarrow> channel" where
  "timer_cancel ch =
     (if timer ch
      then ch\<lparr>timer := False, timer_ready := timer_ready ch @ [operation_aborted]\<rparr>
      else ch)"

definition expires_from_now :: "channel \<Rightarrow> channel" where
  "expires_from_now ch = timer_cancel ch"

definition async_wait :: "channel \<Rightarrow> channel" where
  "async_wait ch = ch\<lparr>timer := True\<rparr>"

definition TimerStart :: "channel \<Rightarrow> channel" where
  "TimerStart ch = async_wait (expires_from_now ch)"

definition TimerStop :: "channel \<Rightarrow> channel" where
  "TimerStop ch = timer_cancel ch"

definition post_strand :: "strand_task \<Rightarrow> channel \<Rightarrow> channel" where
  "post_strand t ch = ch\<lparr>strand := strand ch @ [t]\<rparr>"

definition ProcessFd :: "ares_socket_t \<Rightarrow> ares_socket_t \<Rightarrow> channel \<Rightarrow> channel" where
  "ProcessFd rd wr ch = post_strand (ProcessFdTask rd wr) ch"

text \<open>
  \<^verbatim>\<open>TimerCallback\<close>. Real time is an input: \<open>elapsed\<close> says whether a full period has
  passed since the last tick, in which case the engine is driven through \<^verbatim>\<open>ProcessFd\<close>.
  The timer is armed again only without an error and with a non-zero request count.
\<close>

definition TimerCallback :: "error_code \<Rightarrow> bool \<Rightarrow> channel \<Rightarrow> channel" where
  "TimerCallback ec elapsed ch =
     (let ch1 = (if elapsed then ProcessFd ARES_SOCKET_BAD ARES_SOCKET_BAD ch else ch)
      in if ec = 0 \<and> request_count ch1 \<noteq> 0 then async_wait (expires_from_now ch1) else ch1)"

text \<open>
  One handler of the strand. The increment starts the timer when the count is zero and then
  counts up; the decrement counts down and stops the timer when the count has become
  zero. \<^verbatim>\<open>ares_process_fd\<close> belongs to the engine: what it does to the Channel (completing
  sub-lookups, opening and closing sockets) enters the model as events of their own.
\<close>

definition run_task :: "strand_task \<Rightarrow> channel \<Rightarrow> channel" where
  "run_task t ch =
     (case t of
        IncrementTask \<Rightarrow>
          (let ch1 = (if request_count ch = 0 then TimerStart ch else ch)
           in ch1\<lparr>request_count := request_count ch1 + 1\<rparr>)
      | DecrementTask \<Rightarrow>
          (let ch1 = ch\<lparr>request_count := request_count ch - 1\<rparr>
           in if request_count ch1 = 0 then TimerStop ch1 else ch1)
      | ProcessFdTask rd wr \<Rightarrow> ch)"

section \<open>The result aggregation of one query\<close>

text \<open>
  What the two bound \<^verbatim>\<open>ResultHandler\<close>s of one query share: the result object, the
  remaining count \<^verbatim>\<open>remain_requests\<close> (a \<^verbatim>\<open>uint32_t\<close>), and the caller's handler, of
  which the model keeps every posting to \<^verbatim>\<open>context_\<close>: the error code and the result
  sequence at that moment. The posted handler reads the shared result object when it runs
  later, so it sees what was written to the object in between.
\<close>

record aggregator =
  result :: results
  req :: "32 word"
  posted :: "(error_code \<times> results) list"

definition post_callback :: "bool \<Rightarrow> error_code \<Rightarrow> aggregator \<Rightarrow> aggregator" where
  "post_callback should_invoke_cb ec q =
     (if should_invoke_cb then q\<lparr>posted := posted q @ [(ec, result q)]\<rparr> else q)"

text \<open>
  \<^verbatim>\<open>ResultHandler\<close>. The mode is read from the Channel at every call. \<open>None\<close> is the
  failed \<^verbatim>\<open>assert(false)\<close> of the default branch.
\<close>

definition ResultHandler ::
  "channel \<Rightarrow> error_code \<Rightarrow> hostent \<Rightarrow> aggregator \<Rightarrow> aggregator option" where
  "ResultHandler ch ec entries q0 =
     (let mode = GetResolveMode ch;
          q = q0\<lparr>req := req q0 - 1\<rparr>
      in if mode = unspecific then
           (if \<not> IsEmpty (result q) then Some q
            else
              let q1 = (if ec = 0 \<and> IsEmpty (result q)
                        then q\<lparr>result := Append entries (result q)\<rparr> else q)
              in Some (post_callback (\<not> IsEmpty (result q1) \<or> req q1 = 0) ec q1))
         else if mode = ipv4_first \<or> mode = ipv6_first \<or> mode = both then
           (let last_family = (if mode \<noteq> both then LastFamily (result q) else None);
                need_prepend =
                  (case last_family of
                     None \<Rightarrow> False
                   | Some family \<Rightarrow> family = (if mode = ipv4_first then AF_INET6 else AF_INET));
                q1 = (if ec = 0 \<and> \<not> need_prepend then q\<lparr>result := Append entries (result q)\<rparr>
                      else if ec = 0 \<and> need_prepend then q\<lparr>result := Prepend entries (result q)\<rparr>
                      else q)
            in if req q1 = 0
               then Some (post_callback True (if \<not> IsEmpty (result q1) then 0 else ec) q1)
               else Some q1)
         else if mode = ipv4_only \<or> mode = ipv6_only then
           (let q1 = (if ec = 0 then q\<lparr>result := Append entries (result q)\<rparr> else q)
            in Some (post_callback True ec q1))
         else None)"

text \<open>
  The aggregate that \<^verbatim>\<open>AsyncGetHostByName\<close> sets up: the caller's result object, the
  remaining count 1, raised to 2 unless the mode asks for one family only, and a handler
  that has not been posted yet.
\<close>

definition new_aggregator :: "resolve_mode \<Rightarrow> results \<Rightarrow> aggregator" where
  "new_aggregator mode result0 =
     \<lparr>result = result0,
      req = (if mode \<noteq> ipv6_only \<and> mode \<noteq> ipv4_only then 1 + 1 else 1),
      posted = []\<rparr>"

text \<open>
  The error code that \<^verbatim>\<open>HostCallback\<close> builds from the status of the engine.
\<close>

definition status_ec :: "int \<Rightarrow> error_code" where
  "status_ec status = (if status \<noteq> ARES_SUCCESS then status else 0)"

text \<open>
  The completions of the sub-lookups of one query in the order of their arrival, each a
  status and a host entry, handed to \<^verbatim>\<open>ResultHandler\<close> as \<^verbatim>\<open>HostCallback\<close> does.
\<close>

fun deliver :: "channel \<Rightarrow> (int \<times> hostent) list \<Rightarrow> aggregator \<Rightarrow> aggregator option" where
  "deliver ch [] q = Some q"
| "deliver ch ((status, h) # cs) q =
     (case ResultHandler ch (status_ec status) h q of
        None \<Rightarrow> None
      | Some q1 \<Rightarrow> deliver ch cs q1)"

section \<open>The Channel, its queries and the engine\<close>

text \<open>
  The Channel together with the aggregates of its queries, which live in shared objects
  of their own: \<open>aggs\<close> maps the address of an aggregate to its value and \<open>next_agg\<close> is
  the next free address.
\<close>

record world =
  chan :: channel
  aggs :: "nat \<Rightarrow> aggregator"
  next_agg :: nat

text \<open>
  \<^verbatim>\<open>HostCallback\<close>: the bound \<^verbatim>\<open>ResultHandler\<close> runs at once, then the decrement is
  posted to the strand. The parameter \<^verbatim>\<open>timeouts\<close> is not used by the source.
\<close>

definition HostCallback :: "nat \<Rightarrow> int \<Rightarrow> hostent \<Rightarrow> world \<Rightarrow> world option" where
  "HostCallback a status h w =
     (case ResultHandler (chan w) (status_ec status) h (aggs w a) of
        None \<Rightarrow> None
      | Some q \<Rightarrow>
          Some (w\<lparr>aggs := (aggs w)(a := q), chan := post_strand DecrementTask (chan w)\<rparr>))"

text \<open>
  What the engine does with a sub-lookup inside \<^verbatim>\<open>ares_gethostbyname\<close>: it keeps it
  for later, or it completes it before the call returns (the engine answers at once when
  it needs no network traffic, for example for a name that is an address literal).
\<close>

datatype engine_reply = Later | Now int hostent

definition ares_gethostbyname :: "nat \<Rightarrow> int \<Rightarrow> engine_reply \<Rightarrow> world \<Rightarrow> world option" where
  "ares_gethostbyname a family reply w =
     (case reply of
        Later \<Rightarrow>
          Some (w\<lparr>chan := (chan w)\<lparr>ares_channel := ares_channel (chan w) @ [(a, family)]\<rparr>\<rparr>)
      | Now status h \<Rightarrow> HostCallback a status h w)"

text \<open>
  \<^verbatim>\<open>AsyncGetHostByNameInternal\<close>: the engine is called first, the increment is posted
  afterwards.
\<close>

definition AsyncGetHostByNameInternal ::
  "nat \<Rightarrow> int \<Rightarrow> engine_reply \<Rightarrow> world \<Rightarrow> world option" where
  "AsyncGetHostByNameInternal a family reply w =
     (case ares_gethostbyname a family reply w of
        None \<Rightarrow> None
      | Some w1 \<Rightarrow> Some (w1\<lparr>chan := post_strand IncrementTask (chan w1)\<rparr>))"

text \<open>
  \<^verbatim>\<open>AsyncGetHostByName\<close> for a caller's result object \<open>result0\<close>; \<open>reply4\<close> and \<open>reply6\<close>
  are the engine's behaviour on the two sub-lookups.
\<close>

definition AsyncGetHostByName ::
  "results \<Rightarrow> engine_reply \<Rightarrow> engine_reply \<Rightarrow> world \<Rightarrow> world option" where
  "AsyncGetHostByName result0 reply4 reply6 w =
     (let mode = GetResolveMode (chan w);
          a = next_agg w;
          w0 = w\<lparr>aggs := (aggs w)(a := new_aggregator mode result0), next_agg := a + 1\<rparr>;
          r4 = (if mode \<noteq> ipv6_only then AsyncGetHostByNameInternal a AF_INET reply4 w0
                else Some w0)
      in case r4 of
           None \<Rightarrow> None
         | Some w1 \<Rightarrow>
             if mode \<noteq> ipv4_only then AsyncGetHostByNameInternal a AF_INET6 reply6 w1
             else Some w1)"

text \<open>
  \<^verbatim>\<open>ares_cancel\<close> completes every pending sub-lookup with \<^verbatim>\<open>ARES_ECANCELLED\<close> and a
  null host entry; \<^verbatim>\<open>Cancel\<close> then stops the timer.
\<close>

fun ares_cancel :: "(nat \<times> int) list \<Rightarrow> world \<Rightarrow> world option" where
  "ares_cancel [] w = Some w"
| "ares_cancel ((a, family) # ls) w =
     (case HostCallback a ARES_ECANCELLED null_hostent w of
        None \<Rightarrow> None
      | Some w1 \<Rightarrow> ares_cancel ls w1)"

definition Cancel :: "world \<Rightarrow> world option" where
  "Cancel w =
     (case ares_cancel (ares_channel (chan w)) (w\<lparr>chan := (chan w)\<lparr>ares_channel := []\<rparr>\<rparr>) of
        None \<Rightarrow> None
      | Some w1 \<Rightarrow> Some (w1\<lparr>chan := TimerStop (chan w1)\<rparr>))"

section \<open>The socket functions\<close>

text \<open>
  What the operating system answers when a socket is opened: the error codes of
  \<^verbatim>\<open>open\<close> and \<^verbatim>\<open>non_blocking\<close> and the native handle of the new socket.
\<close>

record os_open =
  open_ec :: error_code
  non_blocking_ec :: error_code
  os_handle :: ares_socket_t

text \<open>\<^verbatim>\<open>std::map::emplace\<close> keeps an entry that is already there.\<close>

definition emplace :: "'k \<Rightarrow> 'v \<Rightarrow> ('k \<rightharpoonup> 'v) \<Rightarrow> ('k \<rightharpoonup> 'v)" where
  "emplace k v m = (case m k of None \<Rightarrow> m(k \<mapsto> v) | Some old \<Rightarrow> m)"

text \<open>
  \<^verbatim>\<open>OpenSocket\<close> returns the socket identifier or -1, sets the error number of the
  system on failure (second component) and registers the socket. \<open>None\<close> is the failed
  \<^verbatim>\<open>assert(false)\<close> for a type that is neither stream nor datagram.
\<close>

definition OpenSocket ::
  "int \<Rightarrow> int \<Rightarrow> int \<Rightarrow> os_open \<Rightarrow> channel
     \<Rightarrow> (ares_socket_t \<times> error_code option \<times> channel) option" where
  "OpenSocket family type protocol os ch =
     (if type = SOCK_STREAM then
        (if open_ec os \<noteq> 0 then Some (- 1, Some (open_ec os), ch)
         else if non_blocking_ec os \<noteq> 0 then Some (- 1, Some (non_blocking_ec os), ch)
         else
           let res = os_handle os;
               ptr = \<lparr>is_tcp = True, native_handle = res, is_v4 = (family = AF_INET)\<rparr>
           in Some (res, None, ch\<lparr>sockets := emplace res ptr (sockets ch)\<rparr>))
      else if type = SOCK_DGRAM then
        (if open_ec os \<noteq> 0 then Some (- 1, Some (open_ec os), ch)
         else if non_blocking_ec os \<noteq> 0 then Some (- 1, Some (non_blocking_ec os), ch)
         else
           let res = os_handle os;
               ptr = \<lparr>is_tcp = False, native_handle = res, is_v4 = (family = AF_INET)\<rparr>
           in Some (res, None, ch\<lparr>sockets := emplace res ptr (sockets ch)\<rparr>))
      else None)"

text \<open>
  \<^verbatim>\<open>CloseSocket\<close> closes the socket found under the identifier and erases the entry.
  An identifier that is not in the map makes the source dereference the end iterator:
  \<open>None\<close>.
\<close>

definition CloseSocket :: "ares_socket_t \<Rightarrow> channel \<Rightarrow> (int \<times> channel) option" where
  "CloseSocket fd ch =
     (case sockets ch fd of
        None \<Rightarrow> None
      | Some s \<Rightarrow> Some (0, ch\<lparr>sockets := (sockets ch)(fd := None)\<rparr>))"

section \<open>Runs of the Channel\<close>

text \<open>
  What can happen to a Channel, one event at a time: a caller resolves a name, the engine
  completes the pending sub-lookup at an index, the strand runs its oldest handler, the
  outstanding wait on the timer expires (its handler is queued with code 0), the reactor
  runs the oldest queued handler of the timer (\<open>elapsed\<close> is the reading of the clock in
  \<^verbatim>\<open>TimerCallback\<close>), a caller cancels, a caller sets the resolve mode, the engine opens or
  closes a socket, a socket becomes ready. The handlers of the strand run in the order of
  their posting and so do the handlers of the timer; how the two queues interleave is left
  open. An event that cannot happen in the state at hand yields \<open>None\<close>.
\<close>

datatype event =
    Resolve results engine_reply engine_reply
  | Complete nat int hostent
  | RunStrand
  | TimerExpired
  | TimerHandler bool
  | CancelAll
  | SetMode resolve_mode
  | Open int int int os_open
  | Close ares_socket_t
  | SocketReady ares_socket_t ares_socket_t

definition step :: "event \<Rightarrow> world \<Rightarrow> world option" where
  "step e w =
     (case e of
        Resolve result0 reply4 reply6 \<Rightarrow> AsyncGetHostByName result0 reply4 reply6 w
      | Complete i status h \<Rightarrow>
          (let pending = ares_channel (chan w)
           in if i < length pending
              then HostCallback (fst (pending ! i)) status h
                     (w\<lparr>chan := (chan w)\<lparr>ares_channel := take i pending @ drop (Suc i) pending\<rparr>\<rparr>)
              else None)
      | RunStrand \<Rightarrow>
          (case strand (chan w) of
             [] \<Rightarrow> None
           | t # ts \<Rightarrow> Some (w\<lparr>chan := run_task t ((chan w)\<lparr>strand := ts\<rparr>)\<rparr>))
      | TimerExpired \<Rightarrow>
          (if timer (chan w)
           then Some (w\<lparr>chan := (chan w)\<lparr>timer := False,
                                           timer_ready := timer_ready (chan w) @ [0]\<rparr>\<rparr>)
           else None)
      | TimerHandler elapsed \<Rightarrow>
          (case timer_ready (chan w) of
             [] \<Rightarrow> None
           | ec # rest \<Rightarrow>
               Some (w\<lparr>chan := TimerCallback ec elapsed ((chan w)\<lparr>timer_ready := rest\<rparr>)\<rparr>))
      | CancelAll \<Rightarrow> Cancel w
      | SetMode mode \<Rightarrow> Some (w\<lparr>chan := snd (SetResolveMode mode (chan w))\<rparr>)
      | Open family type protocol os \<Rightarrow>
          (case OpenSocket family type protocol os (chan w) of
             None \<Rightarrow> None
           | Some (fd, errno, ch) \<Rightarrow> Some (w\<lparr>chan := ch\<rparr>))
      | Close fd \<Rightarrow>
          (case CloseSocket fd (chan w) of
             None \<Rightarrow> None
           | Some (ret, ch) \<Rightarrow> Some (w\<lparr>chan := ch\<rparr>))
      | SocketReady rd wr \<Rightarrow> Some (w\<lparr>chan := ProcessFd rd wr (chan w)\<rparr>))"

fun run :: "event list \<Rightarrow> world \<Rightarrow> world option" where
  "run [] w = Some w"
| "run (e # es) w = (case step e w of None \<Rightarrow> None | Some w1 \<Rightarrow> run es w1)"

text \<open>The world of a Channel that has just been constructed: no query yet.\<close>

definition new_world :: "channel \<Rightarrow> world" where
  "new_world ch = \<lparr>chan = ch, aggs = (\<lambda>a. new_aggregator both []), next_agg = 0\<rparr>"

section \<open>Auxiliary definitions for the statements\<close>

text \<open>
  The family that a first-preference mode does not prefer: the constant that the source
  compares the last family with, \<^verbatim>\<open>mode == ipv4_first ? AF_INET6 : AF_INET\<close>.
\<close>

definition other_family :: "resolve_mode \<Rightarrow> int" where
  "other_family mode = (if mode = ipv4_first then AF_INET6 else AF_INET)"

definition preferred_family :: "resolve_mode \<Rightarrow> int" where
  "preferred_family mode = (if mode = ipv4_first then AF_INET else AF_INET6)"

text \<open>
  The result sequence that the branch for \<^verbatim>\<open>ipv4_first\<close>, \<^verbatim>\<open>ipv6_first\<close> and
  \<^verbatim>\<open>both\<close> leaves behind, as one expression; \<open>ResultHandler_merging\<close> below proves that
  the source computes it.
\<close>

definition merged :: "resolve_mode \<Rightarrow> error_code \<Rightarrow> hostent \<Rightarrow> results \<Rightarrow> results" where
  "merged mode ec entries r =
     (if ec \<noteq> 0 then r
      else if mode \<noteq> both \<and> LastFamily r = Some (other_family mode) then Prepend entries r
      else Append entries r)"

text \<open>
  The per-arrival rule in the words of the spec, to be compared with the source: the
  arriving result is put in front when the arriving family is not the preferred family and
  the family of the last entry is the other, non-preferred family; it is appended otherwise.
\<close>

definition claimed_prepend :: "resolve_mode \<Rightarrow> hostent \<Rightarrow> results \<Rightarrow> bool" where
  "claimed_prepend mode entries r =
     (h_addrtype entries \<noteq> preferred_family mode \<and> LastFamily r = Some (other_family mode))"

definition claimed_merge :: "resolve_mode \<Rightarrow> hostent \<Rightarrow> results \<Rightarrow> results" where
  "claimed_merge mode entries r =
     (if claimed_prepend mode entries r then Prepend entries r else Append entries r)"

text \<open>Concrete values for the examples: a Channel, and a host entry of either family.\<close>

definition channel0 :: channel where
  "channel0 = \<lparr>sockets = Map.empty, request_count = 0, resolve_mode = both,
                timer_period = 1500, timer = False, timer_ready = [], strand = [],
                ares_channel = []\<rparr>"

definition channel_in :: "resolve_mode \<Rightarrow> channel" where
  "channel_in mode = channel0\<lparr>resolve_mode := mode\<rparr>"

definition host4 :: hostent where
  "host4 = \<lparr>h_addrtype = AF_INET, h_addr_list = [''10.0.0.1'']\<rparr>"

definition host6 :: hostent where
  "host6 = \<lparr>h_addrtype = AF_INET6, h_addr_list = [''::1'']\<rparr>"

definition udp_open :: os_open where
  "udp_open = \<lparr>open_ec = 0, non_blocking_ec = 0, os_handle = 7\<rparr>"

text \<open>
  What is looked at in a state: the timer together with the request count; the postings of
  the callback of the query whose aggregate lives at an address; and these postings together
  with the timer, the request count and the queue of the strand.
\<close>

definition timer_state :: "world \<Rightarrow> bool \<times> int" where
  "timer_state w = (timer (chan w), request_count (chan w))"


definition callbacks_posted :: "nat \<Rightarrow> world \<Rightarrow> (error_code \<times> results) list" where
  "callbacks_posted a w = posted (aggs w a)"




text \<open>
  Two Channels agree on the members that only the handlers of the strand, the timer,
  \<^verbatim>\<open>Cancel\<close> and \<^verbatim>\<open>SetResolveMode\<close> write.
\<close>

definition same_counters :: "channel \<Rightarrow> channel \<Rightarrow> bool" where
  "same_counters c1 c2 =
     (timer c1 = timer c2 \<and> timer_ready c1 = timer_ready c2 \<and>
      request_count c1 = request_count c2 \<and> resolve_mode c1 = resolve_mode c2)"

text \<open>An event that stores a resolve mode: \<^verbatim>\<open>SetResolveMode\<close> with a valid mode.\<close>

fun sets_valid_mode :: "event \<Rightarrow> bool" where
  "sets_valid_mode (SetMode mode) = is_valid_resolve_mode mode"
| "sets_valid_mode e = False"

text \<open>
  An event in which the engine completes no sub-lookup inside \<^verbatim>\<open>ares_gethostbyname\<close>.
\<close>

fun engine_async :: "event \<Rightarrow> bool" where
  "engine_async (Resolve result0 reply4 reply6) = (reply4 = Later \<and> reply6 = Later)"
| "engine_async e = True"

text \<open>
  By how much a handler of the strand moves the request count, whether the count stays
  non-negative while the strand runs a queue of handlers from a count \<open>c\<close>, and the
  invariant that ties count, queue and pending sub-lookups together: running the whole
  queue never takes the count below zero and leaves the number of pending sub-lookups.
\<close>

fun task_delta :: "strand_task \<Rightarrow> int" where
  "task_delta IncrementTask = 1"
| "task_delta DecrementTask = - 1"
| "task_delta (ProcessFdTask rd wr) = 0"

fun counts_ok :: "int \<Rightarrow> strand_task list \<Rightarrow> bool" where
  "counts_ok c [] = (0 \<le> c)"
| "counts_ok c (t # ts) = (0 \<le> c \<and> counts_ok (c + task_delta t) ts)"

definition balanced :: "channel \<Rightarrow> bool" where
  "balanced c =
     (counts_ok (request_count c) (strand c) \<and>
      request_count c + sum_list (map task_delta (strand c)) = int (length (ares_channel c)))"

text \<open>
  The second half of that invariant alone, which also holds when the engine completes a
  sub-lookup inside \<^verbatim>\<open>ares_gethostbyname\<close>: when the strand has run its queue, the count
  is the number of pending sub-lookups.
\<close>

definition settles :: "channel \<Rightarrow> bool" where
  "settles c =
     (request_count c + sum_list (map task_delta (strand c)) = int (length (ares_channel c)))"



section \<open>Basic facts\<close>

lemmas rh_defs = ResultHandler_def GetResolveMode_def Let_def post_callback_def IsEmpty_def
  Append_def Prepend_def LastFamily_def

lemmas example_defs = channel_in_def channel0_def host4_def host6_def entries_of_def
  AF_INET_def AF_INET6_def ARES_SUCCESS_def new_aggregator_def

lemma AF_INET_neq_AF_INET6: "AF_INET \<noteq> AF_INET6"
  by (simp add: AF_INET_def AF_INET6_def)

lemma entries_of_Nil_iff:
  "entries_of h = [] \<longleftrightarrow> h_addr_list h = []"
  "[] = entries_of h \<longleftrightarrow> h_addr_list h = []"
  by (auto simp add: entries_of_def)

lemma LastFamily_Nil: "LastFamily [] = None"
  by (simp add: LastFamily_def)

lemma LastFamily_entries_of:
  "LastFamily (entries_of h) = (if h_addr_list h = [] then None else Some (h_addrtype h))"
  by (simp add: LastFamily_def entries_of_def last_map)

lemma deliver_one:
  "deliver ch [(s1, h1)] q = ResultHandler ch (status_ec s1) h1 q"
  by (simp split: option.splits)

lemma deliver_two:
  "deliver ch [(s1, h1), (s2, h2)] q =
     (case ResultHandler ch (status_ec s1) h1 q of None \<Rightarrow> None
      | Some q1 \<Rightarrow> ResultHandler ch (status_ec s2) h2 q1)"
  by (simp split: option.splits)

lemma erase_absent:
  "sockets ch k = None \<Longrightarrow> ch\<lparr>sockets := (sockets ch)(k := None)\<rparr> = ch"
  by (simp add: fun_upd_idem)

section \<open>ResultHandler, one mode at a time\<close>

lemma ResultHandler_unspecific:
  "resolve_mode ch = unspecific \<Longrightarrow>
   ResultHandler ch ec h q =
     Some (if result q \<noteq> [] then q\<lparr>req := req q - 1\<rparr>
           else if ec = 0 \<and> h_addr_list h \<noteq> []
             then q\<lparr>req := req q - 1, result := entries_of h,
                    posted := posted q @ [(ec, entries_of h)]\<rparr>
           else if req q - 1 = 0
             then q\<lparr>req := req q - 1, posted := posted q @ [(ec, [])]\<rparr>
           else q\<lparr>req := req q - 1\<rparr>)"
  by (simp add: rh_defs entries_of_Nil_iff)

lemma ResultHandler_merging:
  "resolve_mode ch = mode \<Longrightarrow> mode = ipv4_first \<or> mode = ipv6_first \<or> mode = both \<Longrightarrow>
   ResultHandler ch ec h q =
     Some (let r1 = merged mode ec h (result q)
           in if req q - 1 = 0
              then q\<lparr>req := req q - 1, result := r1,
                     posted := posted q @ [(if r1 \<noteq> [] then 0 else ec, r1)]\<rparr>
              else q\<lparr>req := req q - 1, result := r1\<rparr>)"
  by (auto simp: rh_defs merged_def other_family_def split: option.splits)

lemma ResultHandler_only:
  "resolve_mode ch = ipv4_only \<or> resolve_mode ch = ipv6_only \<Longrightarrow>
   ResultHandler ch ec h q =
     Some (let r1 = (if ec = 0 then Append h (result q) else result q)
           in q\<lparr>req := req q - 1, result := r1, posted := posted q @ [(ec, r1)]\<rparr>)"
  by (auto simp: rh_defs)

section \<open>The order of the families under a first-preference mode\<close>

text \<open>
  Claim C2. Under \<^verbatim>\<open>ipv4_first\<close> a query whose two sub-lookups both succeed hands the
  caller the IPv4 addresses followed by the IPv6 addresses, whichever sub-lookup completed
  first; under \<^verbatim>\<open>ipv6_first\<close> the IPv6 addresses come first. The callback is posted once,
  with a cleared error code and that sequence. The host entries are those of the two
  sub-lookups, so the first has family \<^verbatim>\<open>AF_INET\<close> and the second \<^verbatim>\<open>AF_INET6\<close>; the
  result object of the query starts empty.
\<close>

theorem preferred_family_leads:
  assumes "h_addrtype h4 = AF_INET" and "h_addrtype h6 = AF_INET6"
  shows "(resolve_mode ch = ipv4_first \<longrightarrow>
            deliver ch [(ARES_SUCCESS, h6), (ARES_SUCCESS, h4)] (new_aggregator ipv4_first [])
              = Some \<lparr>result = entries_of h4 @ entries_of h6, req = 0,
                      posted = [(0, entries_of h4 @ entries_of h6)]\<rparr> \<and>
            deliver ch [(ARES_SUCCESS, h4), (ARES_SUCCESS, h6)] (new_aggregator ipv4_first [])
              = Some \<lparr>result = entries_of h4 @ entries_of h6, req = 0,
                      posted = [(0, entries_of h4 @ entries_of h6)]\<rparr>) \<and>
         (resolve_mode ch = ipv6_first \<longrightarrow>
            deliver ch [(ARES_SUCCESS, h4), (ARES_SUCCESS, h6)] (new_aggregator ipv6_first [])
              = Some \<lparr>result = entries_of h6 @ entries_of h4, req = 0,
                      posted = [(0, entries_of h6 @ entries_of h4)]\<rparr> \<and>
            deliver ch [(ARES_SUCCESS, h6), (ARES_SUCCESS, h4)] (new_aggregator ipv6_first [])
              = Some \<lparr>result = entries_of h6 @ entries_of h4, req = 0,
                      posted = [(0, entries_of h6 @ entries_of h4)]\<rparr>)"
proof -
  have l4: "LastFamily (entries_of h4) = (if h_addr_list h4 = [] then None else Some AF_INET)"
    using assms(1) by (simp add: LastFamily_entries_of)
  have l6: "LastFamily (entries_of h6) = (if h_addr_list h6 = [] then None else Some AF_INET6)"
    using assms(2) by (simp add: LastFamily_entries_of)
  have e: "\<And>h. h_addr_list h = [] \<Longrightarrow> entries_of h = []"
    by (simp add: entries_of_def)
  show ?thesis
    by (auto simp add: e deliver_two ResultHandler_merging merged_def other_family_def l4 l6
        LastFamily_Nil new_aggregator_def status_ec_def ARES_SUCCESS_def Append_def Prepend_def
        AF_INET_neq_AF_INET6 AF_INET_neq_AF_INET6 [symmetric] entries_of_Nil_iff Let_def)
qed

text \<open>
  The theorem at the example of the spec: the IPv6 sub-lookup completes first under
  \<^verbatim>\<open>ipv4_first\<close>, and the IPv4 address still leads.
\<close>

theorem preferred_family_leads_witness:
  "h_addrtype host4 = AF_INET \<and> h_addrtype host6 = AF_INET6 \<and>
   resolve_mode (channel_in ipv4_first) = ipv4_first \<and>
   deliver (channel_in ipv4_first) [(ARES_SUCCESS, host6), (ARES_SUCCESS, host4)]
       (new_aggregator ipv4_first [])
     = Some \<lparr>result = [(AF_INET, ''10.0.0.1''), (AF_INET6, ''::1'')], req = 0,
             posted = [(0, [(AF_INET, ''10.0.0.1''), (AF_INET6, ''::1'')])]\<rparr>"
  using preferred_family_leads [of host4 host6 "channel_in ipv4_first"]
  by (simp add: example_defs)

section \<open>The per-arrival rule of the first-preference modes\<close>

text \<open>
  Claim C3, as stated, fails. Under \<^verbatim>\<open>ipv4_first\<close> the IPv6 result has arrived and the
  IPv4 result arrives: the arriving family is the preferred one, so the rule of the claim
  appends, while the source puts the IPv4 addresses in front.
\<close>

theorem arriving_family_rule_counterexample:
  "map_option result
     (ResultHandler (channel_in ipv4_first) 0 host4
        \<lparr>result = entries_of host6, req = 1, posted = []\<rparr>)
   \<noteq> Some (claimed_merge ipv4_first host4 (entries_of host6))"
  by (simp add: example_defs rh_defs claimed_merge_def claimed_prepend_def
      preferred_family_def other_family_def)

text \<open>
  Claim C3, amended. Under \<^verbatim>\<open>ipv4_first\<close> and \<^verbatim>\<open>ipv6_first\<close> a sub-result that arrives
  without an error is put in front of the accumulated sequence when that sequence is not
  empty and its last entry has the non-preferred family, and is appended otherwise; the
  family of the arriving result plays no part. A sub-result that arrives with an error
  leaves the sequence as it is.
\<close>

theorem prepend_decided_by_last_family:
  assumes "mode = ipv4_first \<or> mode = ipv6_first" and "resolve_mode ch = mode"
  shows "\<exists>q1. ResultHandler ch ec entries q = Some q1 \<and>
           result q1 =
             (if ec \<noteq> 0 then result q
              else if LastFamily (result q) = Some (other_family mode)
                then Prepend entries (result q)
              else Append entries (result q))"
  using assms by (auto simp add: ResultHandler_merging Let_def merged_def)

theorem prepend_decided_by_last_family_witness:
  "resolve_mode (channel_in ipv4_first) = ipv4_first \<and>
   map_option result
     (ResultHandler (channel_in ipv4_first) 0 host4
        \<lparr>result = entries_of host6, req = 1, posted = []\<rparr>)
     = Some [(AF_INET, ''10.0.0.1''), (AF_INET6, ''::1'')] \<and>
   map_option result
     (ResultHandler (channel_in ipv4_first) 0 host6
        \<lparr>result = entries_of host4, req = 1, posted = []\<rparr>)
     = Some [(AF_INET, ''10.0.0.1''), (AF_INET6, ''::1'')]"
  using prepend_decided_by_last_family [of ipv4_first "channel_in ipv4_first" 0 host4
      "\<lparr>result = entries_of host6, req = 1, posted = []\<rparr>"]
    prepend_decided_by_last_family [of ipv4_first "channel_in ipv4_first" 0 host6
      "\<lparr>result = entries_of host4, req = 1, posted = []\<rparr>"]
  by (auto simp add: example_defs Prepend_def Append_def LastFamily_def other_family_def)

section \<open>The mode unspecific\<close>

text \<open>
  Claim C4. Under \<^verbatim>\<open>unspecific\<close>: a completion that finds the accumulated result
  non-empty only lowers the remaining count (nothing is merged, no callback is posted); a
  completion that finds it empty accepts the entries when there is no error, and posts the
  callback exactly when the result has become non-empty or the remaining count has reached
  zero. For a query, whose result starts empty with two sub-lookups: a first completion
  that succeeds with addresses decides the result, whatever the second brings, and in every
  case the callback has been posted exactly once when both have reported.
\<close>

theorem unspecific_first_success_wins:
  assumes "resolve_mode ch = unspecific"
  shows "(\<not> IsEmpty (result q) \<longrightarrow>
            ResultHandler ch ec entries q = Some (q\<lparr>req := req q - 1\<rparr>)) \<and>
         (IsEmpty (result q) \<longrightarrow>
            (\<exists>q1. ResultHandler ch ec entries q = Some q1 \<and> req q1 = req q - 1 \<and>
               result q1 = (if ec = 0 then entries_of entries else []) \<and>
               posted q1 = (if \<not> IsEmpty (result q1) \<or> req q1 = 0
                            then posted q @ [(ec, result q1)] else posted q))) \<and>
         (h_addr_list h1 \<noteq> [] \<longrightarrow>
            deliver ch [(ARES_SUCCESS, h1), (s2, h2)] (new_aggregator unspecific [])
              = Some \<lparr>result = entries_of h1, req = 0, posted = [(0, entries_of h1)]\<rparr>) \<and>
         (\<exists>q2. deliver ch [(s1, h1), (s2, h2)] (new_aggregator unspecific []) = Some q2 \<and>
               length (posted q2) = 1)"
proof -
  have a: "\<not> IsEmpty (result q) \<longrightarrow>
            ResultHandler ch ec entries q = Some (q\<lparr>req := req q - 1\<rparr>)"
    using assms by (simp add: ResultHandler_unspecific IsEmpty_def)
  have b: "IsEmpty (result q) \<longrightarrow>
            (\<exists>q1. ResultHandler ch ec entries q = Some q1 \<and> req q1 = req q - 1 \<and>
               result q1 = (if ec = 0 then entries_of entries else []) \<and>
               posted q1 = (if \<not> IsEmpty (result q1) \<or> req q1 = 0
                            then posted q @ [(ec, result q1)] else posted q))"
    using assms by (simp add: ResultHandler_unspecific IsEmpty_def entries_of_Nil_iff)
  have c: "h_addr_list h1 \<noteq> [] \<longrightarrow>
            deliver ch [(ARES_SUCCESS, h1), (s2, h2)] (new_aggregator unspecific [])
              = Some \<lparr>result = entries_of h1, req = 0, posted = [(0, entries_of h1)]\<rparr>"
    using assms
    by (simp add: deliver_two ResultHandler_unspecific new_aggregator_def status_ec_def
        ARES_SUCCESS_def entries_of_Nil_iff)
  have d: "\<exists>q2. deliver ch [(s1, h1), (s2, h2)] (new_aggregator unspecific []) = Some q2 \<and>
               length (posted q2) = 1"
    using assms
    by (simp add: deliver_two ResultHandler_unspecific new_aggregator_def entries_of_Nil_iff)
  from a b c d show ?thesis by blast
qed

theorem unspecific_first_success_wins_witness:
  "resolve_mode (channel_in unspecific) = unspecific \<and>
   ResultHandler (channel_in unspecific) 0 host6
       \<lparr>result = [(AF_INET, ''10.0.0.1'')], req = 1, posted = [(0, [(AF_INET, ''10.0.0.1'')])]\<rparr>
     = Some \<lparr>result = [(AF_INET, ''10.0.0.1'')], req = 0,
             posted = [(0, [(AF_INET, ''10.0.0.1'')])]\<rparr> \<and>
   deliver (channel_in unspecific) [(ARES_SUCCESS, host4), (ARES_SUCCESS, host6)]
       (new_aggregator unspecific [])
     = Some \<lparr>result = [(AF_INET, ''10.0.0.1'')], req = 0,
             posted = [(0, [(AF_INET, ''10.0.0.1'')])]\<rparr>"
  using unspecific_first_success_wins [of "channel_in unspecific"
      "\<lparr>result = [(AF_INET, ''10.0.0.1'')], req = 1, posted = [(0, [(AF_INET, ''10.0.0.1'')])]\<rparr>"
      0 host6 host4 ARES_SUCCESS host6]
  by (simp add: example_defs IsEmpty_def)

section \<open>The modes that wait for both sub-lookups\<close>

text \<open>
  Claim C5. Under \<^verbatim>\<open>ipv4_first\<close>, \<^verbatim>\<open>ipv6_first\<close> and \<^verbatim>\<open>both\<close> a completion posts the
  callback exactly when it brings the remaining count to zero, and the error code it posts
  is cleared when the accumulated result is not empty at that moment (the code of the
  arriving completion is passed on only with an empty result). For a query, which starts
  with a remaining count of two: nothing is posted after the first completion, and the
  callback is posted once after the second.
\<close>

theorem callback_when_both_reported:
  assumes "mode = ipv4_first \<or> mode = ipv6_first \<or> mode = both"
    and "resolve_mode ch = mode"
  shows "(\<exists>q1. ResultHandler ch ec entries q = Some q1 \<and> req q1 = req q - 1 \<and>
            posted q1 = (if req q1 = 0
                         then posted q @ [(if IsEmpty (result q1) then ec else 0, result q1)]
                         else posted q)) \<and>
         (\<exists>q1 q2. deliver ch [(s1, h1)] (new_aggregator mode r0) = Some q1 \<and> posted q1 = [] \<and>
            deliver ch [(s1, h1), (s2, h2)] (new_aggregator mode r0) = Some q2 \<and> req q2 = 0 \<and>
            posted q2 = [(if IsEmpty (result q2) then status_ec s2 else 0, result q2)])"
proof -
  have a: "\<exists>q1. ResultHandler ch ec entries q = Some q1 \<and> req q1 = req q - 1 \<and>
            posted q1 = (if req q1 = 0
                         then posted q @ [(if IsEmpty (result q1) then ec else 0, result q1)]
                         else posted q)"
    using assms by (simp add: ResultHandler_merging Let_def IsEmpty_def)
  have n: "new_aggregator mode r0 = \<lparr>result = r0, req = 2, posted = []\<rparr>"
    using assms(1) by (auto simp add: new_aggregator_def)
  have b: "\<exists>q1 q2. deliver ch [(s1, h1)] (new_aggregator mode r0) = Some q1 \<and> posted q1 = [] \<and>
            deliver ch [(s1, h1), (s2, h2)] (new_aggregator mode r0) = Some q2 \<and> req q2 = 0 \<and>
            posted q2 = [(if IsEmpty (result q2) then status_ec s2 else 0, result q2)]"
    using assms by (simp add: n deliver_one deliver_two ResultHandler_merging Let_def IsEmpty_def)
  from a b show ?thesis by blast
qed

text \<open>
  The theorem under \<^verbatim>\<open>both\<close> with one failing and one successful sub-lookup, in either
  order: nothing is posted after the first completion, and the error (status 4) is
  suppressed in the end.
\<close>

theorem callback_when_both_reported_witness:
  "resolve_mode (channel_in both) = both \<and>
   deliver (channel_in both) [(4, null_hostent)] (new_aggregator both [])
     = Some \<lparr>result = [], req = 1, posted = []\<rparr> \<and>
   deliver (channel_in both) [(4, null_hostent), (ARES_SUCCESS, host6)] (new_aggregator both [])
     = Some \<lparr>result = [(AF_INET6, ''::1'')], req = 0, posted = [(0, [(AF_INET6, ''::1'')])]\<rparr> \<and>
   deliver (channel_in both) [(ARES_SUCCESS, host6), (4, null_hostent)] (new_aggregator both [])
     = Some \<lparr>result = [(AF_INET6, ''::1'')], req = 0, posted = [(0, [(AF_INET6, ''::1'')])]\<rparr>"
  using callback_when_both_reported [of both "channel_in both" 4 null_hostent
      "new_aggregator both []" 4 null_hostent "[]" ARES_SUCCESS host6]
  by (simp add: example_defs null_hostent_def rh_defs status_ec_def)

section \<open>Setting the resolve mode\<close>

text \<open>
  Claim C7. \<^verbatim>\<open>SetResolveMode\<close> with a mode that \<^verbatim>\<open>is_valid_resolve_mode\<close> rejects returns
  the error \<^verbatim>\<open>not_implemented\<close>, which is not the cleared code, and leaves the Channel
  as it was, so that \<^verbatim>\<open>GetResolveMode\<close> still reports the prior mode; with a valid mode
  it returns the cleared code and stores the mode. A value that is none of the six
  enumerators is rejected.
\<close>

theorem SetResolveMode_checks_mode:
  "(\<not> is_valid_resolve_mode mode \<longrightarrow>
      fst (SetResolveMode mode ch) = not_implemented \<and> not_implemented \<noteq> 0 \<and>
      snd (SetResolveMode mode ch) = ch \<and>
      GetResolveMode (snd (SetResolveMode mode ch)) = GetResolveMode ch) \<and>
   (is_valid_resolve_mode mode \<longrightarrow>
      fst (SetResolveMode mode ch) = 0 \<and>
      GetResolveMode (snd (SetResolveMode mode ch)) = mode) \<and>
   \<not> is_valid_resolve_mode (undefined_mode v)"
  by (simp add: SetResolveMode_def GetResolveMode_def not_implemented_def)

theorem SetResolveMode_checks_mode_witness:
  "\<not> is_valid_resolve_mode (undefined_mode 7) \<and>
   fst (SetResolveMode (undefined_mode 7) (channel_in ipv4_first)) = 5 \<and>
   GetResolveMode (snd (SetResolveMode (undefined_mode 7) (channel_in ipv4_first))) = ipv4_first \<and>
   is_valid_resolve_mode unspecific \<and>
   fst (SetResolveMode unspecific (channel_in ipv4_first)) = 0 \<and>
   GetResolveMode (snd (SetResolveMode unspecific (channel_in ipv4_first))) = unspecific"
  using SetResolveMode_checks_mode [of "undefined_mode 7" "channel_in ipv4_first" 7]
    SetResolveMode_checks_mode [of unspecific "channel_in ipv4_first" 7]
  by (simp add: not_implemented_def GetResolveMode_def channel_in_def)

section \<open>Opening and closing a socket\<close>

text \<open>
  Claim C9. When \<^verbatim>\<open>OpenSocket\<close> returns an identifier other than the sentinel, no error
  number was set, the socket map holds a socket under that identifier and is unchanged at
  every other identifier; \<^verbatim>\<open>CloseSocket\<close> on the identifier then returns 0 and removes
  exactly that entry. When the identifier was free before the call, the entry is the new
  socket and the round trip gives back the Channel from before.
\<close>

theorem Open_then_Close_round_trip:
  assumes "OpenSocket family type protocol os ch = Some (fd, errno, ch1)"
    and "fd \<noteq> ARES_SOCKET_BAD"
  shows "errno = None \<and> fd = os_handle os \<and> sockets ch1 fd \<noteq> None \<and>
         (\<forall>k. k \<noteq> fd \<longrightarrow> sockets ch1 k = sockets ch k) \<and>
         (sockets ch fd = None \<longrightarrow>
            sockets ch1 fd = Some \<lparr>is_tcp = (type = SOCK_STREAM), native_handle = fd,
                                    is_v4 = (family = AF_INET)\<rparr>) \<and>
         (\<exists>ch2. CloseSocket fd ch1 = Some (0, ch2) \<and> sockets ch2 fd = None \<and>
            (\<forall>k. k \<noteq> fd \<longrightarrow> sockets ch2 k = sockets ch1 k) \<and>
            (sockets ch fd = None \<longrightarrow> ch2 = ch))"
  using assms
  by (auto simp add: OpenSocket_def CloseSocket_def emplace_def ARES_SOCKET_BAD_def Let_def
      SOCK_STREAM_def SOCK_DGRAM_def erase_absent
      split: if_splits option.splits)

text \<open>
  The theorem for a datagram socket that the system opens under the handle 7, on a
  Channel without sockets.
\<close>

theorem Open_then_Close_round_trip_witness:
  "OpenSocket AF_INET SOCK_DGRAM 0 udp_open channel0
     = Some (7, None, channel0\<lparr>sockets := [7 \<mapsto> \<lparr>is_tcp = False, native_handle = 7,
                                                       is_v4 = True\<rparr>]\<rparr>) \<and>
   7 \<noteq> ARES_SOCKET_BAD \<and>
   CloseSocket 7 (channel0\<lparr>sockets := [7 \<mapsto> \<lparr>is_tcp = False, native_handle = 7,
                                                  is_v4 = True\<rparr>]\<rparr>)
     = Some (0, channel0)"
proof -
  have o: "OpenSocket AF_INET SOCK_DGRAM 0 udp_open channel0
     = Some (7, None, channel0\<lparr>sockets := [7 \<mapsto> \<lparr>is_tcp = False, native_handle = 7,
                                                       is_v4 = True\<rparr>]\<rparr>)"
    by (simp add: OpenSocket_def udp_open_def channel0_def emplace_def SOCK_DGRAM_def
        SOCK_STREAM_def)
  have b: "(7 :: int) \<noteq> ARES_SOCKET_BAD"
    by (simp add: ARES_SOCKET_BAD_def)
  from Open_then_Close_round_trip [OF o b] o b show ?thesis
    by (auto simp add: channel0_def)
qed

section \<open>What the operations do to the Channel\<close>

lemmas timer_defs = TimerStart_def TimerStop_def timer_cancel_def expires_from_now_def
  async_wait_def

lemmas run_defs = step_def AsyncGetHostByName_def AsyncGetHostByNameInternal_def
  ares_gethostbyname_def HostCallback_def new_world_def GetResolveMode_def post_strand_def
  run_task_def timer_defs SetResolveMode_def status_ec_def

lemma HostCallback_chan:
  "HostCallback a s h w = Some w1 \<Longrightarrow> chan w1 = post_strand DecrementTask (chan w)"
  by (auto simp: HostCallback_def split: option.splits)

lemma ares_cancel_chan:
  "ares_cancel ls w = Some w1 \<Longrightarrow>
   chan w1 = (chan w)\<lparr>strand := strand (chan w) @ replicate (length ls) DecrementTask\<rparr>"
proof (induction ls arbitrary: w)
  case Nil
  then show ?case by simp
next
  case (Cons l ls)
  obtain a f where l: "l = (a, f)" by (cases l)
  from Cons.prems l obtain w2 where
    h: "HostCallback a ARES_ECANCELLED null_hostent w = Some w2" and r: "ares_cancel ls w2 = Some w1"
    by (auto split: option.splits)
  from Cons.IH [OF r] HostCallback_chan [OF h] show ?case
    by (simp add: post_strand_def replicate_app_Cons_same)
qed

lemma Cancel_chan:
  "Cancel w = Some w1 \<Longrightarrow>
   chan w1 =
     TimerStop ((chan w)\<lparr>ares_channel := [],
       strand := strand (chan w) @ replicate (length (ares_channel (chan w))) DecrementTask\<rparr>)"
  by (auto simp: Cancel_def dest!: ares_cancel_chan split: option.splits)

lemma Internal_chan:
  "AsyncGetHostByNameInternal a f r w = Some w1 \<Longrightarrow>
   chan w1 =
     (case r of
        Later \<Rightarrow> (chan w)\<lparr>ares_channel := ares_channel (chan w) @ [(a, f)],
                          strand := strand (chan w) @ [IncrementTask]\<rparr>
      | Now s h \<Rightarrow> (chan w)\<lparr>strand := strand (chan w) @ [DecrementTask, IncrementTask]\<rparr>)"
  by (auto simp: AsyncGetHostByNameInternal_def ares_gethostbyname_def post_strand_def
      dest!: HostCallback_chan split: option.splits engine_reply.splits)

lemma Internal_same:
  "AsyncGetHostByNameInternal a f r w = Some w1 \<Longrightarrow> same_counters (chan w1) (chan w)"
  by (drule Internal_chan) (simp add: same_counters_def split: engine_reply.splits)

lemma AsyncGetHostByName_same:
  "AsyncGetHostByName r0 r4 r6 w = Some w1 \<Longrightarrow> same_counters (chan w1) (chan w)"
  unfolding AsyncGetHostByName_def Let_def
  by (auto split: option.splits if_splits dest!: Internal_same simp: same_counters_def)

lemma step_same:
  "step e w = Some w1 \<Longrightarrow>
   (case e of RunStrand \<Rightarrow> False | TimerExpired \<Rightarrow> False | TimerHandler el \<Rightarrow> False
    | CancelAll \<Rightarrow> False | SetMode m \<Rightarrow> False | _ \<Rightarrow> True) \<Longrightarrow>
   same_counters (chan w1) (chan w)"
  by (cases e)
    (auto simp: step_def Let_def same_counters_def post_strand_def ProcessFd_def
      OpenSocket_def CloseSocket_def
      dest!: AsyncGetHostByName_same HostCallback_chan split: option.splits if_splits)



lemma Channel_example: "Channel 3000 ARES_SUCCESS = Inr channel0"
  by (simp add: Channel_def channel0_def)

lemma Channel_Inr:
  "Channel timeout init_ret = Inr ch \<Longrightarrow>
   ch = \<lparr>sockets = Map.empty, request_count = 0, resolve_mode = both,
         timer_period = sgn timeout * (\<bar>timeout\<bar> div 2), timer = False,
         timer_ready = [], strand = [], ares_channel = []\<rparr>"
  by (simp add: Channel_def split: if_splits)

lemma snd_SetResolveMode:
  "snd (SetResolveMode mode c) = (if is_valid_resolve_mode mode then c\<lparr>resolve_mode := mode\<rparr> else c)"
  by (simp add: SetResolveMode_def)

lemma SetResolveMode_counters:
  "timer (snd (SetResolveMode mode c)) = timer c"
  "timer_ready (snd (SetResolveMode mode c)) = timer_ready c"
  "request_count (snd (SetResolveMode mode c)) = request_count c"
  "strand (snd (SetResolveMode mode c)) = strand c"
  "ares_channel (snd (SetResolveMode mode c)) = ares_channel c"
  by (simp_all add: SetResolveMode_def)

text \<open>The timer operations leave count, strand, pending sub-lookups and mode alone.\<close>

lemma timer_ops_frame:
  "request_count (TimerStart c) = request_count c"
  "request_count (TimerStop c) = request_count c"
  "strand (TimerStart c) = strand c"
  "strand (TimerStop c) = strand c"
  "ares_channel (TimerStart c) = ares_channel c"
  "ares_channel (TimerStop c) = ares_channel c"
  "resolve_mode (TimerStart c) = resolve_mode c"
  "resolve_mode (TimerStop c) = resolve_mode c"
  by (simp_all add: timer_defs)

lemma TimerCallback_frame:
  "request_count (TimerCallback ec elapsed c) = request_count c"
  "resolve_mode (TimerCallback ec elapsed c) = resolve_mode c"
  "ares_channel (TimerCallback ec elapsed c) = ares_channel c"
  "strand (TimerCallback ec elapsed c) =
     (if elapsed then strand c @ [ProcessFdTask ARES_SOCKET_BAD ARES_SOCKET_BAD] else strand c)"
  by (simp_all add: TimerCallback_def ProcessFd_def post_strand_def Let_def timer_defs)

lemma run_task_frame:
  "request_count (run_task t c) = request_count c + task_delta t"
  "strand (run_task t c) = strand c"
  "ares_channel (run_task t c) = ares_channel c"
  "resolve_mode (run_task t c) = resolve_mode c"
  by (cases t; simp add: run_task_def Let_def timer_defs)+


section \<open>The timer and the request count\<close>

lemma operation_aborted_neq_0: "operation_aborted \<noteq> 0" "0 \<noteq> operation_aborted"
  by (simp_all add: operation_aborted_def)










section \<open>Count, strand and pending sub-lookups\<close>

lemma settles_frame:
  "settles c \<Longrightarrow> request_count c1 = request_count c \<Longrightarrow> strand c1 = strand c \<Longrightarrow>
   ares_channel c1 = ares_channel c \<Longrightarrow> settles c1"
  by (simp add: settles_def)





section \<open>A stopped timer and a count that is not zero\<close>











section \<open>The sign of the request count\<close>

lemma counts_ok_nonneg: "counts_ok c ts \<Longrightarrow> 0 \<le> c"
  by (cases ts) simp_all

lemma counts_ok_append:
  "counts_ok c (ts @ us) \<longleftrightarrow> counts_ok c ts \<and> counts_ok (c + sum_list (map task_delta ts)) us"
proof (induction ts arbitrary: c)
  case Nil
  then show ?case by (auto dest: counts_ok_nonneg)
next
  case (Cons t ts)
  then show ?case by (simp add: add.assoc)
qed

lemma counts_ok_replicate_Decrement:
  "counts_ok c (replicate n DecrementTask) \<longleftrightarrow> int n \<le> c"
  by (induction n arbitrary: c) auto

lemma balanced_nonneg: "balanced c \<Longrightarrow> 0 \<le> request_count c"
  by (auto simp: balanced_def dest: counts_ok_nonneg)

lemma balanced_frame:
  "balanced c \<Longrightarrow> request_count c1 = request_count c \<Longrightarrow> strand c1 = strand c \<Longrightarrow>
   ares_channel c1 = ares_channel c \<Longrightarrow> balanced c1"
  by (simp add: balanced_def)

lemma balanced_issue:
  "balanced c \<Longrightarrow>
   balanced (c\<lparr>ares_channel := ares_channel c @ [x], strand := strand c @ [IncrementTask]\<rparr>)"
  by (auto simp: balanced_def counts_ok_append)

lemma balanced_complete:
  "balanced c \<Longrightarrow> i < length (ares_channel c) \<Longrightarrow>
   balanced (c\<lparr>ares_channel := take i (ares_channel c) @ drop (Suc i) (ares_channel c),
               strand := strand c @ [DecrementTask]\<rparr>)"
  by (auto simp: balanced_def counts_ok_append)

lemma balanced_run_task:
  "balanced c \<Longrightarrow> strand c = t # ts \<Longrightarrow> balanced (run_task t (c\<lparr>strand := ts\<rparr>))"
  by (auto simp: balanced_def run_task_frame)

lemma balanced_cancel:
  "balanced c \<Longrightarrow>
   balanced (TimerStop (c\<lparr>ares_channel := [],
               strand := strand c @ replicate (length (ares_channel c)) DecrementTask\<rparr>))"
  by (auto simp: balanced_def counts_ok_append counts_ok_replicate_Decrement
      sum_list_replicate timer_ops_frame)

lemma balanced_ProcessFd: "balanced c \<Longrightarrow> balanced (ProcessFd rd wr c)"
  by (auto simp: balanced_def ProcessFd_def post_strand_def counts_ok_append
      dest: counts_ok_nonneg)

lemma balanced_TimerCallback:
  "balanced c \<Longrightarrow> balanced (TimerCallback ec elapsed (c\<lparr>timer_ready := r\<rparr>))"
  by (auto simp: balanced_def TimerCallback_frame counts_ok_append dest: counts_ok_nonneg)

lemma Internal_balanced:
  assumes "AsyncGetHostByNameInternal a f Later w = Some w1" and "balanced (chan w)"
  shows "balanced (chan w1)"
  using Internal_chan [OF assms(1)] balanced_issue [OF assms(2)] by simp

lemma AsyncGetHostByName_balanced:
  assumes "AsyncGetHostByName r0 Later Later w = Some w1" and "balanced (chan w)"
  shows "balanced (chan w1)"
  using assms unfolding AsyncGetHostByName_def Let_def
  by (auto split: option.splits if_splits dest: Internal_balanced)

lemma step_balanced:
  assumes "step e w = Some w1" and "engine_async e" and "balanced (chan w)"
  shows "balanced (chan w1)"
proof (cases e)
  case (Resolve r0 r4 r6)
  with assms show ?thesis
    by (auto simp: step_def dest: AsyncGetHostByName_balanced)
next
  case (Complete i status h)
  with assms show ?thesis
    by (auto simp: step_def Let_def post_strand_def dest!: HostCallback_chan
        intro: balanced_complete split: if_splits)
next
  case RunStrand
  with assms show ?thesis
    by (auto simp: step_def split: list.splits intro: balanced_run_task)
next
  case TimerExpired
  with assms show ?thesis
    by (auto simp: step_def split: if_splits intro: balanced_frame)
next
  case (TimerHandler elapsed)
  with assms show ?thesis
    by (auto simp: step_def balanced_TimerCallback split: list.splits)
next
  case CancelAll
  with assms show ?thesis
    by (auto simp: step_def dest!: Cancel_chan intro: balanced_cancel)
next
  case (SetMode mode)
  with assms show ?thesis
    by (auto simp: step_def SetResolveMode_counters intro: balanced_frame)
next
  case (Open family type protocol os)
  with assms show ?thesis
    by (auto simp: step_def OpenSocket_def Let_def split: if_splits option.splits
        intro: balanced_frame)
next
  case (Close fd)
  with assms show ?thesis
    by (auto simp: step_def CloseSocket_def split: option.splits intro: balanced_frame)
next
  case (SocketReady rd wr)
  with assms show ?thesis
    by (auto simp: step_def intro: balanced_ProcessFd)
qed

lemma run_balanced:
  "run evs w = Some w1 \<Longrightarrow> \<forall>e \<in> set evs. engine_async e \<Longrightarrow> balanced (chan w) \<Longrightarrow>
   balanced (chan w1)"
proof (induction evs arbitrary: w)
  case Nil
  then show ?case by simp
next
  case (Cons e evs)
  from Cons.prems obtain w2 where s: "step e w = Some w2" and r: "run evs w2 = Some w1"
    by (auto split: option.splits)
  from Cons.prems have "engine_async e" and a: "\<forall>e \<in> set evs. engine_async e"
    by simp_all
  with step_balanced [OF s] Cons.prems(3) have "balanced (chan w2)" by simp
  with Cons.IH [OF r a] show ?case .
qed


text \<open>
  As long as the engine completes no sub-lookup inside \<^verbatim>\<open>ares_gethostbyname\<close>, the
  request count of a newly constructed Channel never goes below zero.
\<close>

lemma request_count_nonneg_engine_async:
  assumes "Channel timeout init_ret = Inr ch" and "run evs (new_world ch) = Some w"
    and "\<forall>e \<in> set evs. engine_async e"
  shows "0 \<le> request_count (chan w)"
proof -
  have "balanced (chan (new_world ch))"
    using Channel_Inr [OF assms(1)] by (simp add: new_world_def balanced_def)
  from run_balanced [OF assms(2) assms(3) this] show ?thesis
    by (rule balanced_nonneg)
qed


section \<open>The timer invariant\<close>





section \<open>The resolve mode of a new Channel\<close>

lemma step_keeps_mode:
  assumes "step e w = Some w1" and "\<not> sets_valid_mode e"
  shows "resolve_mode (chan w1) = resolve_mode (chan w)"
proof (cases e)
  case RunStrand
  with assms show ?thesis
    by (auto simp: step_def run_task_frame split: list.splits)
next
  case TimerExpired
  with assms show ?thesis
    by (auto simp: step_def split: if_splits)
next
  case (TimerHandler elapsed)
  with assms show ?thesis
    by (auto simp: step_def TimerCallback_frame split: list.splits)
next
  case CancelAll
  with assms show ?thesis
    by (auto simp: step_def timer_ops_frame dest!: Cancel_chan)
next
  case (SetMode mode)
  with assms show ?thesis
    by (auto simp: step_def snd_SetResolveMode)
qed (use assms in \<open>auto dest!: step_same simp: same_counters_def\<close>)

lemma run_keeps_mode:
  "run evs w = Some w1 \<Longrightarrow> \<forall>e \<in> set evs. \<not> sets_valid_mode e \<Longrightarrow>
   resolve_mode (chan w1) = resolve_mode (chan w)"
proof (induction evs arbitrary: w)
  case Nil
  then show ?case by simp
next
  case (Cons e evs)
  from Cons.prems obtain w2 where s: "step e w = Some w2" and r: "run evs w2 = Some w1"
    by (auto split: option.splits)
  from Cons.prems have "\<not> sets_valid_mode e" and "\<forall>e \<in> set evs. \<not> sets_valid_mode e"
    by simp_all
  with Cons.IH [OF r] step_keeps_mode [OF s] show ?case by simp
qed

text \<open>
  Claim C10. Whatever the timeout, a Channel that the constructor returns has the resolve
  mode \<^verbatim>\<open>both\<close>, and it still has it after any sequence of events among which no
  \<^verbatim>\<open>SetResolveMode\<close> with a valid mode occurs.
\<close>

theorem new_Channel_resolve_mode_both:
  assumes "Channel timeout init_ret = Inr ch"
  shows "GetResolveMode ch = both \<and>
         (\<forall>evs w. (\<forall>e \<in> set evs. \<not> sets_valid_mode e) \<longrightarrow>
            run evs (new_world ch) = Some w \<longrightarrow> GetResolveMode (chan w) = both)"
proof -
  have m: "resolve_mode ch = both"
    using Channel_Inr [OF assms] by simp
  have "GetResolveMode (chan w) = both"
    if "\<forall>e \<in> set evs. \<not> sets_valid_mode e" and "run evs (new_world ch) = Some w" for evs w
    using run_keeps_mode [OF that(2) that(1)] m by (simp add: GetResolveMode_def new_world_def)
  with m show ?thesis
    by (simp add: GetResolveMode_def)
qed

text \<open>
  The theorem for two timeouts; the second Channel takes a rejected
  \<^verbatim>\<open>SetResolveMode\<close>, a query and a handler of the strand.
\<close>

theorem new_Channel_resolve_mode_both_witness:
  "Channel 10 ARES_SUCCESS = Inr (channel0\<lparr>timer_period := 5\<rparr>) \<and>
   GetResolveMode (channel0\<lparr>timer_period := 5\<rparr>) = both \<and>
   Channel 3000 ARES_SUCCESS = Inr channel0 \<and>
   map_option (\<lambda>w. GetResolveMode (chan w))
     (run [SetMode (undefined_mode 9), Resolve [] Later Later, RunStrand]
        (new_world channel0)) = Some both"
proof -
  define w where "w = \<lparr>chan = channel0\<lparr>request_count := 1, timer := True,
      strand := [IncrementTask], ares_channel := [(0, AF_INET), (0, AF_INET6)]\<rparr>,
    aggs = (\<lambda>a. new_aggregator both []), next_agg = 1\<rparr>"
  have r: "run [SetMode (undefined_mode 9), Resolve [] Later Later, RunStrand]
      (new_world channel0) = Some w"
    by (simp add: w_def step_def AsyncGetHostByName_def AsyncGetHostByNameInternal_def
      ares_gethostbyname_def new_world_def channel0_def GetResolveMode_def post_strand_def
      run_task_def timer_defs new_aggregator_def fun_eq_iff SetResolveMode_def)
  have v: "\<forall>e \<in> set [SetMode (undefined_mode 9), Resolve [] Later Later, RunStrand].
      \<not> sets_valid_mode e"
    by simp
  have c: "Channel 10 ARES_SUCCESS = Inr (channel0\<lparr>timer_period := 5\<rparr>)"
    by (simp add: Channel_def channel0_def)
  from new_Channel_resolve_mode_both [OF Channel_example] v r
  have "GetResolveMode (chan w) = both"
    by blast
  with new_Channel_resolve_mode_both [OF c] c show ?thesis
    by (simp add: r Channel_example del: run.simps)
qed

section \<open>A request count below zero\<close>

text \<open>
  Claim C8 fails on the code. The caller selects \<^verbatim>\<open>ipv4_only\<close> and resolves a name that
  the engine answers inside \<^verbatim>\<open>ares_gethostbyname\<close>: \<^verbatim>\<open>HostCallback\<close> posts the
  decrement before \<^verbatim>\<open>AsyncGetHostByNameInternal\<close> posts the increment, and after the
  first handler of the strand the request count is -1.
\<close>

theorem request_count_negative_after_immediate_reply:
  "map_option timer_state
     (run [SetMode ipv4_only, Resolve [] (Now ARES_SUCCESS host4) Later, RunStrand]
        (new_world channel0))
   = Some (False, - 1)"
  by (simp add: run_defs rh_defs example_defs timer_state_def)

section \<open>How often the callback of a query is posted\<close>

text \<open>
  Claim C1 fails on the code, because \<^verbatim>\<open>ResultHandler\<close> reads the resolve mode of the
  Channel at every completion. A query is issued under \<^verbatim>\<open>both\<close>. When the mode is set to
  \<^verbatim>\<open>ipv4_only\<close> before the two sub-lookups complete, the callback is posted twice; when
  it is set to \<^verbatim>\<open>unspecific\<close> between the two completions, the callback is never posted.
\<close>

theorem callback_count_after_mode_change:
  "map_option (callbacks_posted 0)
     (run [Resolve [] Later Later, SetMode ipv4_only,
           Complete 0 ARES_SUCCESS host4, Complete 0 ARES_SUCCESS host6] (new_world channel0))
   = Some [(0, [(AF_INET, ''10.0.0.1'')]), (0, [(AF_INET, ''10.0.0.1''), (AF_INET6, ''::1'')])] \<and>
   map_option (callbacks_posted 0)
     (run [Resolve [] Later Later, Complete 0 ARES_SUCCESS host4, SetMode unspecific,
           Complete 0 ARES_SUCCESS host6] (new_world channel0))
   = Some []"
  by (simp add: run_defs rh_defs example_defs callbacks_posted_def)

text \<open>
  While the resolve mode stays what it was when the query was issued, the callback is
  posted exactly once: \<^verbatim>\<open>AsyncGetHostByName\<close> hands as many sub-lookups to the engine
  as the remaining count says, every completion lowers the count by one, and when all
  have reported the count is zero and the callback has been posted once.
\<close>

lemma AsyncGetHostByName_issues:
  "\<exists>w1. AsyncGetHostByName r0 Later Later w = Some w1 \<and>
     aggs w1 (next_agg w) = new_aggregator (resolve_mode (chan w)) r0 \<and>
     posted (aggs w1 (next_agg w)) = [] \<and>
     length (ares_channel (chan w1)) =
       length (ares_channel (chan w)) + unat (req (aggs w1 (next_agg w)))"
  by (simp add: AsyncGetHostByName_def AsyncGetHostByNameInternal_def ares_gethostbyname_def
      GetResolveMode_def post_strand_def new_aggregator_def Let_def)

lemma callback_once_while_mode_unchanged:
  assumes "is_valid_resolve_mode (resolve_mode ch)"
  shows "if resolve_mode ch = ipv4_only \<or> resolve_mode ch = ipv6_only
         then req (new_aggregator (resolve_mode ch) []) = 1 \<and>
              (\<exists>q. deliver ch [(s1, h1)] (new_aggregator (resolve_mode ch) []) = Some q \<and>
                 req q = 0 \<and> length (posted q) = 1)
         else req (new_aggregator (resolve_mode ch) []) = 2 \<and>
              (\<exists>q1 q2. deliver ch [(s1, h1)] (new_aggregator (resolve_mode ch) []) = Some q1 \<and>
                 req q1 = 1 \<and> length (posted q1) \<le> 1 \<and>
                 deliver ch [(s1, h1), (s2, h2)] (new_aggregator (resolve_mode ch) []) = Some q2 \<and>
                 req q2 = 0 \<and> length (posted q2) = 1)"
proof (cases "resolve_mode ch")
  case unspecific
  then show ?thesis
    by (simp add: deliver_one deliver_two ResultHandler_unspecific new_aggregator_def
        entries_of_Nil_iff)
next
  case ipv4_only
  then show ?thesis
    by (simp add: deliver_one ResultHandler_only new_aggregator_def Let_def)
next
  case ipv6_only
  then show ?thesis
    by (simp add: deliver_one ResultHandler_only new_aggregator_def Let_def)
next
  case ipv4_first
  then show ?thesis
    by (simp add: deliver_one deliver_two ResultHandler_merging new_aggregator_def Let_def)
next
  case ipv6_first
  then show ?thesis
    by (simp add: deliver_one deliver_two ResultHandler_merging new_aggregator_def Let_def)
next
  case both
  then show ?thesis
    by (simp add: deliver_one deliver_two ResultHandler_merging new_aggregator_def Let_def)
next
  case (undefined_mode v)
  with assms show ?thesis by simp
qed

section \<open>The operations of a caller return\<close>

text \<open>
  The resolve mode of a Channel is always one of the six policies, so the default branch
  of \<^verbatim>\<open>ResultHandler\<close> is never taken: in every state that a newly constructed Channel
  reaches, resolving, cancelling and setting the mode return.
\<close>

lemma ResultHandler_defined:
  "is_valid_resolve_mode (resolve_mode ch) \<Longrightarrow> \<exists>q1. ResultHandler ch ec h q = Some q1"
  by (cases "resolve_mode ch") (simp_all add: ResultHandler_def GetResolveMode_def Let_def)

lemma HostCallback_defined:
  "is_valid_resolve_mode (resolve_mode (chan w)) \<Longrightarrow>
   \<exists>w1. HostCallback a status h w = Some w1 \<and> resolve_mode (chan w1) = resolve_mode (chan w)"
  using ResultHandler_defined [of "chan w" "status_ec status" h "aggs w a"]
  by (auto simp: HostCallback_def post_strand_def)

lemma ares_cancel_defined:
  "is_valid_resolve_mode (resolve_mode (chan w)) \<Longrightarrow> \<exists>w1. ares_cancel ls w = Some w1"
proof (induction ls arbitrary: w)
  case Nil
  then show ?case by simp
next
  case (Cons l ls)
  obtain a f where l: "l = (a, f)" by (cases l)
  from HostCallback_defined [OF Cons.prems, of a ARES_ECANCELLED null_hostent]
  obtain w2 where h: "HostCallback a ARES_ECANCELLED null_hostent w = Some w2"
    and m: "resolve_mode (chan w2) = resolve_mode (chan w)"
    by blast
  from Cons.IH [of w2] Cons.prems m obtain w1 where "ares_cancel ls w2 = Some w1"
    by auto
  with h l show ?case by simp
qed

lemma Cancel_defined:
  "is_valid_resolve_mode (resolve_mode (chan w)) \<Longrightarrow> \<exists>w1. Cancel w = Some w1"
  using ares_cancel_defined [of "w\<lparr>chan := (chan w)\<lparr>ares_channel := []\<rparr>\<rparr>" "ares_channel (chan w)"]
  by (auto simp: Cancel_def)

lemma Internal_defined:
  "is_valid_resolve_mode (resolve_mode (chan w)) \<Longrightarrow>
   \<exists>w1. AsyncGetHostByNameInternal a f r w = Some w1 \<and>
     resolve_mode (chan w1) = resolve_mode (chan w)"
proof (cases r)
  case Later
  then show ?thesis
    by (simp add: AsyncGetHostByNameInternal_def ares_gethostbyname_def post_strand_def)
next
  case (Now status h)
  assume v: "is_valid_resolve_mode (resolve_mode (chan w))"
  from HostCallback_defined [OF v, of a status h] Now show ?thesis
    by (auto simp: AsyncGetHostByNameInternal_def ares_gethostbyname_def post_strand_def)
qed

lemma AsyncGetHostByName_defined:
  assumes "is_valid_resolve_mode (resolve_mode (chan w))"
  shows "\<exists>w1. AsyncGetHostByName r0 r4 r6 w = Some w1"
proof -
  define w0 where "w0 = w\<lparr>aggs := (aggs w)(next_agg w := new_aggregator (resolve_mode (chan w)) r0),
    next_agg := next_agg w + 1\<rparr>"
  have v0: "is_valid_resolve_mode (resolve_mode (chan w0))"
    using assms by (simp add: w0_def)
  from Internal_defined [OF v0, of "next_agg w" AF_INET r4] obtain w1 where
    i1: "AsyncGetHostByNameInternal (next_agg w) AF_INET r4 w0 = Some w1"
    and m1: "resolve_mode (chan w1) = resolve_mode (chan w0)"
    by blast
  have v1: "is_valid_resolve_mode (resolve_mode (chan w1))"
    using v0 m1 by simp
  from Internal_defined [OF v1, of "next_agg w" AF_INET6 r6] obtain w2 where
    i2: "AsyncGetHostByNameInternal (next_agg w) AF_INET6 r6 w1 = Some w2"
    by blast
  from Internal_defined [OF v0, of "next_agg w" AF_INET6 r6] obtain w3 where
    i3: "AsyncGetHostByNameInternal (next_agg w) AF_INET6 r6 w0 = Some w3"
    by blast
  show ?thesis
    using i1 i2 i3 unfolding w0_def
    by (auto simp add: AsyncGetHostByName_def GetResolveMode_def Let_def)
qed

lemma step_mode_valid:
  assumes "step e w = Some w1" and "is_valid_resolve_mode (resolve_mode (chan w))"
  shows "is_valid_resolve_mode (resolve_mode (chan w1))"
proof (cases "sets_valid_mode e")
  case True
  then obtain mode where "e = SetMode mode" and "is_valid_resolve_mode mode"
    by (cases e) auto
  with assms show ?thesis
    by (auto simp: step_def snd_SetResolveMode)
next
  case False
  from step_keeps_mode [OF assms(1) False] assms(2) show ?thesis by simp
qed

lemma run_mode_valid:
  "run evs w = Some w1 \<Longrightarrow> is_valid_resolve_mode (resolve_mode (chan w)) \<Longrightarrow>
   is_valid_resolve_mode (resolve_mode (chan w1))"
proof (induction evs arbitrary: w)
  case Nil
  then show ?case by simp
next
  case (Cons e evs)
  then show ?case
    by (auto split: option.splits dest: step_mode_valid)
qed

lemma caller_operations_return:
  assumes "Channel timeout init_ret = Inr ch" and "run evs (new_world ch) = Some w"
  shows "(\<exists>w1. step (Resolve r0 r4 r6) w = Some w1) \<and> (\<exists>w1. step CancelAll w = Some w1) \<and>
         (\<exists>w1. step (SetMode mode) w = Some w1)"
proof -
  have "is_valid_resolve_mode (resolve_mode (chan (new_world ch)))"
    using Channel_Inr [OF assms(1)] by (simp add: new_world_def)
  from run_mode_valid [OF assms(2) this] show ?thesis
    by (simp add: step_def AsyncGetHostByName_defined Cancel_defined)
qed


end
